theory Spec2Isabelle
  imports Complex_Main "HOL-Library.Sublist"
begin

section \<open>The page: elements, class lists and lookups\<close>

text \<open>
  \<^verbatim>\<open>src/js/main.js\<close> works on the live document. The document is held here as the list
  of its elements in document order; an element reference of the script (\<^verbatim>\<open>button\<close>,
  \<^verbatim>\<open>element\<close>, \<^verbatim>\<open>event.target\<close>, an entry of a \<^verbatim>\<open>NodeList\<close>) is the element's position in
  that list. The markup below an element is kept as its serialisation \<^verbatim>\<open>innerHTML\<close>, which is
  how the script reads and writes it.
\<close>

record element =
  tag :: string
  ident :: string
  className :: string
  onclick :: "string option"
  innerHTML :: string
  textContent :: string
  innerText :: string
  val :: string
  style :: "(string \<times> string) list"
  parent :: "nat option"

text \<open>
  \<open>ident\<close> is the \<^verbatim>\<open>id\<close> attribute and \<open>val\<close> the \<^verbatim>\<open>value\<close> of a form control, both empty when
  absent; \<open>className\<close> and \<open>innerHTML\<close> hold what the getters of those names return;
  \<open>style\<close> is the inline declaration block, one entry for each longhand property that is
  declared, with the value as it serialises; \<open>parent\<close> is the position of the parent
  element, \<open>None\<close> for a child of \<^verbatim>\<open>body\<close>. Text is held as its UTF-8 bytes.
\<close>

subsection \<open>\<^verbatim>\<open>classList\<close>\<close>

text \<open>
  \<^verbatim>\<open>className\<close> is the raw attribute text. \<^verbatim>\<open>classList\<close> reads it as an ordered set of
  tokens (split at ASCII whitespace, first occurrence kept) and writes the set back joined by
  single spaces.
\<close>

definition is_ws :: "char \<Rightarrow> bool" where
  "is_ws c = (c = CHR '' '' \<or> c = CHR 0x09 \<or> c = CHR 0x0A \<or> c = CHR 0x0C \<or> c = CHR 0x0D)"

fun split_ws :: "string \<Rightarrow> string \<Rightarrow> string list" where
  "split_ws cur [] = (if cur = [] then [] else [cur])"
| "split_ws cur (c # cs) =
     (if is_ws c then (if cur = [] then split_ws [] cs else cur # split_ws [] cs)
      else split_ws (cur @ [c]) cs)"

definition ordered_set :: "string list \<Rightarrow> string list" where
  "ordered_set ts = rev (remdups (rev ts))"

definition class_tokens :: "string \<Rightarrow> string list" where
  "class_tokens s = ordered_set (split_ws [] s)"

fun serialize_tokens :: "string list \<Rightarrow> string" where
  "serialize_tokens [] = []"
| "serialize_tokens [t] = t"
| "serialize_tokens (t # u # ts) = t @ CHR '' '' # serialize_tokens (u # ts)"

definition classList_contains :: "string \<Rightarrow> string \<Rightarrow> bool" where
  "classList_contains c s = (c \<in> set (class_tokens s))"

definition append_token :: "string list \<Rightarrow> string \<Rightarrow> string list" where
  "append_token ts c = (if c \<in> set ts then ts else ts @ [c])"

definition classList_add :: "string list \<Rightarrow> string \<Rightarrow> string" where
  "classList_add cs s = serialize_tokens (foldl append_token (class_tokens s) cs)"

definition classList_remove :: "string \<Rightarrow> string \<Rightarrow> string" where
  "classList_remove c s = serialize_tokens (filter (\<lambda>t. t \<noteq> c) (class_tokens s))"

definition classList_toggle :: "string \<Rightarrow> string \<Rightarrow> string" where
  "classList_toggle c s =
     (if classList_contains c s then classList_remove c s else classList_add [c] s)"

definition has_class :: "string \<Rightarrow> element \<Rightarrow> bool" where
  "has_class c e = classList_contains c (className e)"

definition add_class :: "string list \<Rightarrow> element \<Rightarrow> element" where
  "add_class cs e = e\<lparr>className := classList_add cs (className e)\<rparr>"

definition remove_class :: "string \<Rightarrow> element \<Rightarrow> element" where
  "remove_class c e = e\<lparr>className := classList_remove c (className e)\<rparr>"

definition toggle_class :: "string \<Rightarrow> element \<Rightarrow> element" where
  "toggle_class c e = e\<lparr>className := classList_toggle c (className e)\<rparr>"

subsection \<open>Inline style\<close>

definition byte :: "char \<Rightarrow> nat" where
  "byte c = of_char c"

text \<open>
  The browser keeps a declared colour as it serialises it: a colour of six hexadecimal digits
  becomes \<^verbatim>\<open>rgb(r, g, b)\<close>. These colours and the empty text are all the script assigns;
  other values are kept as written.
\<close>

definition hex_value :: "char \<Rightarrow> nat option" where
  "hex_value c =
     (if 48 \<le> byte c \<and> byte c \<le> 57 then Some (byte c - 48)
      else if 97 \<le> byte c \<and> byte c \<le> 102 then Some (byte c - 87)
      else if 65 \<le> byte c \<and> byte c \<le> 70 then Some (byte c - 55)
      else None)"

definition decimal :: "nat \<Rightarrow> string" where
  "decimal n =
     (if n < 10 then [char_of (48 + n)]
      else if n < 100 then [char_of (48 + n div 10), char_of (48 + n mod 10)]
      else [char_of (48 + n div 100), char_of (48 + n div 10 mod 10), char_of (48 + n mod 10)])"

definition css_serialize :: "string \<Rightarrow> string" where
  "css_serialize v =
     (case v of
        [h, r1, r0, g1, g0, b1, b0] \<Rightarrow>
          (case map hex_value [r1, r0, g1, g0, b1, b0] of
             [Some a, Some b, Some c, Some d, Some e, Some f] \<Rightarrow>
               if h = CHR ''#'' then
                 ''rgb('' @ decimal (16 * a + b) @ '', '' @ decimal (16 * c + d) @ '', ''
                   @ decimal (16 * e + f) @ '')''
               else v
           | _ \<Rightarrow> v)
      | _ \<Rightarrow> v)"

text \<open>
  \<^verbatim>\<open>border-color\<close> is a shorthand: assigning it declares the colours of the four sides, and
  clearing it removes those four declarations. \<^verbatim>\<open>color\<close> stands for itself. The script
  assigns no other property of an element.
\<close>

definition longhands :: "string \<Rightarrow> string list" where
  "longhands p =
     (if p = ''border-color''
      then [''border-top-color'', ''border-right-color'', ''border-bottom-color'',
            ''border-left-color'']
      else [p])"

definition set_declaration :: "string \<Rightarrow> (string \<times> string) list \<Rightarrow> string \<Rightarrow> (string \<times> string) list" where
  "set_declaration v ds q =
     (if q \<in> fst ` set ds then map (\<lambda>d. if fst d = q then (q, v) else d) ds
      else ds @ [(q, v)])"

text \<open>
  \<^verbatim>\<open>el.style.p = v\<close>: the empty string removes the declarations of the property's longhands,
  another value replaces each of them where it stands or adds it at the end.
\<close>

definition style_set :: "string \<Rightarrow> string \<Rightarrow> element \<Rightarrow> element" where
  "style_set p v e =
     e\<lparr>style :=
        (if v = [] then filter (\<lambda>d. fst d \<notin> set (longhands p)) (style e)
         else foldl (set_declaration (css_serialize v)) (style e) (longhands p))\<rparr>"

subsection \<open>Lookups\<close>

definition upd :: "nat \<Rightarrow> (element \<Rightarrow> element) \<Rightarrow> element list \<Rightarrow> element list" where
  "upd i f es = es[i := f (es ! i)]"

text \<open>\<^verbatim>\<open>nodeList.forEach(n => ...)\<close> over a static list of element references.\<close>

definition forEach :: "nat list \<Rightarrow> (element \<Rightarrow> element) \<Rightarrow> element list \<Rightarrow> element list" where
  "forEach ns f es = fold (\<lambda>i. upd i f) ns es"

text \<open>\<^verbatim>\<open>document.getElementById(s)\<close>: the first element in document order whose id is \<open>s\<close>;
  no element has the empty id.\<close>

definition getElementById :: "element list \<Rightarrow> string \<Rightarrow> nat option" where
  "getElementById es s =
     (if s = [] then None else List.find (\<lambda>i. ident (es ! i) = s) [0..<length es])"

text \<open>\<^verbatim>\<open>document.querySelectorAll('.c')\<close> and \<^verbatim>\<open>document.querySelector('.c')\<close>.\<close>

definition querySelectorAll_class :: "element list \<Rightarrow> string \<Rightarrow> nat list" where
  "querySelectorAll_class es c = filter (\<lambda>i. has_class c (es ! i)) [0..<length es]"

definition querySelector_class :: "element list \<Rightarrow> string \<Rightarrow> nat option" where
  "querySelector_class es c = List.find (\<lambda>i. has_class c (es ! i)) [0..<length es]"

text \<open>
  \<^verbatim>\<open>a.contains(b)\<close>: \<open>b\<close> is \<open>a\<close> or lies below it. The walk goes up the parent references; in
  document order a parent stands before its children, which is what makes the walk end.
\<close>

function node_contains :: "element list \<Rightarrow> nat \<Rightarrow> nat \<Rightarrow> bool" where
  "node_contains es a b =
     (if a = b then True
      else if b < length es then
        (case parent (es ! b) of
           None \<Rightarrow> False
         | Some p \<Rightarrow> if p < b then node_contains es a p else False)
      else False)"
  by pat_completeness auto
termination
  by (relation "measure (\<lambda>(es, a, b). b)") auto

text \<open>\<^verbatim>\<open>el.closest('.c')\<close>: the element itself or its nearest ancestor carrying class \<open>c\<close>.\<close>

function closest_class :: "element list \<Rightarrow> string \<Rightarrow> nat \<Rightarrow> nat option" where
  "closest_class es c i =
     (if i < length es then
        (if has_class c (es ! i) then Some i
         else case parent (es ! i) of
           None \<Rightarrow> None
         | Some p \<Rightarrow> if p < i then closest_class es c p else None)
      else None)"
  by pat_completeness auto
termination
  by (relation "measure (\<lambda>(es, c, i). i)") auto

text \<open>\<^verbatim>\<open>container.querySelector('code')\<close>: the first element below the container with that
  tag.\<close>

definition querySelector_tag :: "element list \<Rightarrow> nat \<Rightarrow> string \<Rightarrow> nat option" where
  "querySelector_tag es a t =
     List.find (\<lambda>j. j \<noteq> a \<and> tag (es ! j) = t \<and> node_contains es a j) [0..<length es]"


section \<open>The page state\<close>

datatype js_error = TypeError | SyntaxError | ClipboardRejected | ExecCommandFailed

text \<open>
  The clipboard capability of the browser: \<^verbatim>\<open>navigator.clipboard.writeText\<close> is absent, or
  its promise resolves or rejects; the legacy \<^verbatim>\<open>document.execCommand('copy')\<close> returns
  \<^verbatim>\<open>true\<close> or \<^verbatim>\<open>false\<close>, or throws.
\<close>

datatype clipboard_write = Resolves | Rejects

datatype exec_result = ExecTrue | ExecFalse | ExecThrows

text \<open>
  The two callbacks handed to \<^verbatim>\<open>setTimeout\<close>, with the variables they close over:
  \<^verbatim>\<open>button\<close>, \<^verbatim>\<open>originalHTML\<close>, \<^verbatim>\<open>originalClass\<close>.
\<close>

datatype timer_action =
    RevertFeedback nat string string
  | RevertError nat string string

record page =
  elems :: "element list"
  body_overflow :: string
  innerWidth :: int
  location_hash :: string
  history_length :: nat
  has_replaceState :: bool
  scrollY :: int
  console :: "string list"
  clock :: nat
  timers :: "(nat \<times> timer_action) list"
  navigator_clipboard :: "clipboard_write option"
  execCommand_copy :: exec_result
  clipboard :: string

text \<open>
  \<open>body_overflow\<close> is \<^verbatim>\<open>document.body.style.overflow\<close>; \<open>location_hash\<close> is what
  \<^verbatim>\<open>location.hash\<close> reads, the fragment of the address as the browser keeps it, with its
  leading \<^verbatim>\<open>#\<close>, or the empty text when the fragment is empty; \<open>history_length\<close> counts the entries of the
  session history; \<open>clock\<close> is the time in milliseconds and \<open>timers\<close> the pending timeouts
  with their due times, in the order they were set. A call that throws leaves the page as it
  was at the throw: an outcome is the page, or the error with that page.
\<close>

type_synonym outcome = "(js_error \<times> page) + page"

section \<open>Navigation\<close>

text \<open>
  \<^verbatim>\<open>history.replaceState(null, null, '#' + t)\<close> hands the text to the URL parser (the page is
  taken to have no \<^verbatim>\<open>base\<close> element, so that only the fragment of the address changes). The
  parser removes control characters and spaces from the end, then every tab and line break,
  and percent-encodes each byte of the fragment percent-encode set: the controls, the bytes
  above \<^verbatim>\<open>~\<close>, the space, the double quote, \<^verbatim>\<open><\<close>, \<^verbatim>\<open>>\<close> and the backtick.
\<close>

definition hex_char :: "nat \<Rightarrow> char" where
  "hex_char n = (if n < 10 then char_of (48 + n) else char_of (55 + n))"

definition percent_encode :: "char \<Rightarrow> string" where
  "percent_encode c = [CHR ''%'', hex_char (byte c div 16), hex_char (byte c mod 16)]"

definition in_fragment_set :: "char \<Rightarrow> bool" where
  "in_fragment_set c =
     (byte c \<le> 0x20 \<or> 0x7E < byte c \<or> byte c = 0x22 \<or> byte c = 0x3C \<or> byte c = 0x3E
      \<or> byte c = 0x60)"

definition c0_or_space :: "char \<Rightarrow> bool" where
  "c0_or_space c = (byte c \<le> 0x20)"

definition tab_or_newline :: "char \<Rightarrow> bool" where
  "tab_or_newline c = (byte c = 0x09 \<or> byte c = 0x0A \<or> byte c = 0x0D)"

definition url_fragment :: "string \<Rightarrow> string" where
  "url_fragment t =
     concat (map (\<lambda>c. if in_fragment_set c then percent_encode c else [c])
       (filter (\<lambda>c. \<not> tab_or_newline c) (rev (dropWhile c0_or_space (rev t)))))"

text \<open>What \<^verbatim>\<open>location.hash\<close> reads after \<^verbatim>\<open>replaceState(null, null, '#' + t)\<close>.\<close>

definition replaceState_hash :: "string \<Rightarrow> string" where
  "replaceState_hash t = (if url_fragment t = [] then [] else CHR ''#'' # url_fragment t)"

text \<open>\<^verbatim>\<open>showSection(sectionId, element)\<close>, lines 8 to 47; \<open>element\<close> is \<open>None\<close> when the
  caller passes nothing.\<close>

definition showSection :: "string \<Rightarrow> nat option \<Rightarrow> page \<Rightarrow> page" where
  "showSection sectionId element s =
     (let sections = querySelectorAll_class (elems s) ''content-section'';
          es1 = forEach sections (remove_class ''active'') (elems s);
          targetSection = getElementById es1 sectionId;
          es2 = (case targetSection of
                   Some t \<Rightarrow> upd t (add_class [''active'']) es1
                 | None \<Rightarrow> es1);
          y = (case targetSection of Some t \<Rightarrow> 0 | None \<Rightarrow> scrollY s);
          navItems = querySelectorAll_class es2 ''nav-item'';
          es3 = forEach navItems (remove_class ''active'') es2;
          es4 = (case element of
                   Some e \<Rightarrow> upd e (add_class [''active'']) es3
                 | None \<Rightarrow> es3);
          es5 = (if innerWidth s \<le> 768 then
                   (case getElementById es4 ''sidebar'' of
                      Some sidebar \<Rightarrow> upd sidebar (remove_class ''open'') es4
                    | None \<Rightarrow> es4)
                 else es4);
          h = (if has_replaceState s then replaceState_hash sectionId else location_hash s)
      in s\<lparr>elems := es5, scrollY := y, location_hash := h\<rparr>)"

text \<open>
  The selector \<^verbatim>\<open>[onclick*="h"]\<close>. When \<open>h\<close> is plain text (no double quote, backslash,
  line break or null character) the selector finds the first element whose \<^verbatim>\<open>onclick\<close>
  attribute contains \<open>h\<close>, and nothing when \<open>h\<close> is empty. Any other text is read by the
  CSS parser of the browser (escapes, a string that ends early), which is not part of the
  script: what the lookup gives then is the parameter \<open>css\<close>.
\<close>

type_synonym selector_engine = "element list \<Rightarrow> string \<Rightarrow> js_error + nat option"

definition css_string_plain :: "string \<Rightarrow> bool" where
  "css_string_plain h =
     list_all (\<lambda>c. c \<noteq> CHR 0x22 \<and> c \<noteq> CHR 0x5C \<and> c \<noteq> CHR 0x0A \<and> c \<noteq> CHR 0x0C \<and> c \<noteq> CHR 0x0D
                 \<and> c \<noteq> CHR 0x00) h"

definition querySelector_onclick :: "selector_engine \<Rightarrow> element list \<Rightarrow> string \<Rightarrow> js_error + nat option" where
  "querySelector_onclick css es h =
     (if css_string_plain h then
        Inr (List.find
          (\<lambda>i. case onclick (es ! i) of None \<Rightarrow> False | Some a \<Rightarrow> h \<noteq> [] \<and> sublist h a)
          [0..<length es])
      else css es h)"

text \<open>\<^verbatim>\<open>handleInitialLoad()\<close>, lines 150 to 159.\<close>

definition handleInitialLoad :: "selector_engine \<Rightarrow> page \<Rightarrow> outcome" where
  "handleInitialLoad css s =
     (let hash = drop 1 (location_hash s) in
      if hash \<noteq> [] then
        (case querySelector_onclick css (elems s) hash of
           Inl err \<Rightarrow> Inl (err, s)
         | Inr None \<Rightarrow> Inr s
         | Inr (Some targetElement) \<Rightarrow> Inr (showSection hash (Some targetElement) s))
      else Inr s)"

section \<open>The sidebar\<close>

text \<open>\<^verbatim>\<open>toggleSidebar()\<close>, lines 52 to 64.\<close>

definition toggleSidebar :: "page \<Rightarrow> page" where
  "toggleSidebar s =
     (case getElementById (elems s) ''sidebar'' of
        None \<Rightarrow> s
      | Some sidebar \<Rightarrow>
          let es' = upd sidebar (toggle_class ''open'') (elems s) in
          s\<lparr>elems := es',
            body_overflow := (if has_class ''open'' (es' ! sidebar) then ''hidden'' else [])\<rparr>)"

text \<open>\<^verbatim>\<open>handleOutsideClick(event)\<close>, lines 165 to 178, with \<open>target\<close> for \<^verbatim>\<open>event.target\<close>. The
  condition is evaluated left to right; \<^verbatim>\<open>toggleButton.contains\<close> on \<^verbatim>\<open>null\<close> throws.\<close>

definition handleOutsideClick :: "nat \<Rightarrow> page \<Rightarrow> outcome" where
  "handleOutsideClick target s =
     (let sidebar = getElementById (elems s) ''sidebar'';
          toggleButton = querySelector_class (elems s) ''menu-toggle''
      in if innerWidth s \<le> 768 then
           (case sidebar of
              None \<Rightarrow> Inr s
            | Some sb \<Rightarrow>
                if node_contains (elems s) sb target then Inr s
                else (case toggleButton of
                        None \<Rightarrow> Inl (TypeError, s)
                      | Some tb \<Rightarrow>
                          if node_contains (elems s) tb target then Inr s
                          else if has_class ''open'' (elems s ! sb) then
                            Inr (s\<lparr>elems := upd sb (remove_class ''open'') (elems s),
                                   body_overflow := []\<rparr>)
                          else Inr s))
         else Inr s)"

text \<open>\<^verbatim>\<open>handleKeyboardNavigation(event)\<close>, lines 184 to 199.\<close>

record key_event =
  key :: string
  altKey :: bool

definition handleKeyboardNavigation :: "key_event \<Rightarrow> page \<Rightarrow> page" where
  "handleKeyboardNavigation event s =
     (let s1 = (if key event = ''Escape'' then
                  (case getElementById (elems s) ''sidebar'' of
                     None \<Rightarrow> s
                   | Some sb \<Rightarrow>
                       if has_class ''open'' (elems s ! sb) then
                         s\<lparr>elems := upd sb (remove_class ''open'') (elems s),
                           body_overflow := []\<rparr>
                       else s)
                else s)
      in if altKey event \<and> (key event = ''m'' \<or> key event = ''M'') then toggleSidebar s1
         else s1)"

text \<open>\<^verbatim>\<open>handleResize()\<close>, lines 282 to 292; \<open>resize w\<close> is the browser changing the window's
  width to \<open>w\<close> and dispatching the event.\<close>

definition handleResize :: "page \<Rightarrow> page" where
  "handleResize s =
     (let sidebar = getElementById (elems s) ''sidebar'' in
      if innerWidth s > 768 then
        s\<lparr>elems := (case sidebar of
                      Some sb \<Rightarrow> upd sb (remove_class ''open'') (elems s)
                    | None \<Rightarrow> elems s),
          body_overflow := []\<rparr>
      else s)"

definition resize :: "int \<Rightarrow> page \<Rightarrow> page" where
  "resize w s = handleResize (s\<lparr>innerWidth := w\<rparr>)"


section \<open>Copying a code block\<close>

definition check_icon :: string where
  \<open>check_icon = ''<i class="fas fa-check"></i>''\<close>

definition warning_icon :: string where
  \<open>warning_icon = ''<i class="fas fa-exclamation-triangle"></i>''\<close>

text \<open>
  Assigning \<^verbatim>\<open>innerHTML\<close> has the browser parse the text and build the content from it; what
  the getter returns afterwards is the serialisation of that content. The HTML parser is not
  part of the script: \<open>html t\<close> stands for the serialisation of what the parser builds
  from \<open>t\<close> as the content of the control at hand. Timeouts run when they are due.
\<close>

type_synonym html_parser = "string \<Rightarrow> string"

text \<open>\<^verbatim>\<open>showCopyFeedback(button)\<close>, lines 112 to 125.\<close>

definition showCopyFeedback :: "html_parser \<Rightarrow> nat \<Rightarrow> page \<Rightarrow> page" where
  "showCopyFeedback html button s =
     (let originalHTML = innerHTML (elems s ! button);
          originalClass = className (elems s ! button);
          es' = upd button
                  (\<lambda>e. add_class [''copied'', ''copying''] (e\<lparr>innerHTML := html check_icon\<rparr>))
                  (elems s)
      in s\<lparr>elems := es',
            timers := timers s @ [(clock s + 2000, RevertFeedback button originalHTML originalClass)]\<rparr>)"

text \<open>\<^verbatim>\<open>showCopyError(button)\<close>, lines 131 to 145.\<close>

definition showCopyError :: "html_parser \<Rightarrow> nat \<Rightarrow> page \<Rightarrow> page" where
  "showCopyError html button s =
     (let originalHTML = innerHTML (elems s ! button);
          originalClass = className (elems s ! button);
          es' = upd button
                  (\<lambda>e. style_set ''border-color'' ''#ff6b6b''
                         (style_set ''color'' ''#ff6b6b'' (e\<lparr>innerHTML := html warning_icon\<rparr>)))
                  (elems s)
      in s\<lparr>elems := es',
            timers := timers s @ [(clock s + 2000, RevertError button originalHTML originalClass)]\<rparr>)"

text \<open>The bodies of the two timeout callbacks.\<close>

fun run_timer :: "html_parser \<Rightarrow> timer_action \<Rightarrow> page \<Rightarrow> page" where
  "run_timer html (RevertFeedback button originalHTML originalClass) s =
     s\<lparr>elems := upd button
                  (\<lambda>e. e\<lparr>innerHTML := html originalHTML, className := originalClass\<rparr>)
                  (elems s)\<rparr>"
| "run_timer html (RevertError button originalHTML originalClass) s =
     s\<lparr>elems := upd button
                  (\<lambda>e. style_set ''border-color'' []
                         (style_set ''color'' []
                           (e\<lparr>innerHTML := html originalHTML, className := originalClass\<rparr>)))
                  (elems s)\<rparr>"

text \<open>
  Time passing: after \<open>d\<close> milliseconds every timeout that has come due has run, the earlier
  due time first and, among equal due times, the one set first.
\<close>

definition elapse :: "html_parser \<Rightarrow> nat \<Rightarrow> page \<Rightarrow> page" where
  "elapse html d s =
     (let t = clock s + d;
          due = sort_key fst (filter (\<lambda>x. fst x \<le> t) (timers s));
          rest = filter (\<lambda>x. \<not> fst x \<le> t) (timers s)
      in fold (\<lambda>x. run_timer html (snd x)) due (s\<lparr>clock := t, timers := rest\<rparr>))"

text \<open>The hidden text area of the fallback path, lines 88 to 92.\<close>

definition textArea :: "string \<Rightarrow> element" where
  "textArea codeText =
     \<lparr>tag = ''textarea'', ident = [], className = [], onclick = None, innerHTML = [],
      textContent = [], innerText = [], val = codeText,
      style = [(''position'', ''fixed''), (''opacity'', ''0''), (''pointer-events'', ''none'')],
      parent = None\<rparr>"

text \<open>
  The \<^verbatim>\<open>try\<close> block of \<^verbatim>\<open>copyCode(button)\<close>, lines 72 to 100. \<^verbatim>\<open>codeContainer.querySelector\<close> on
  \<^verbatim>\<open>null\<close> throws; the awaited write either resolves or throws its rejection; the text area is
  appended to \<^verbatim>\<open>body\<close>, that is, at the end of the document, and removed again after
  \<^verbatim>\<open>execCommand\<close> has returned. The awaited write is taken to settle before the next event.
\<close>

definition copyCode_try :: "html_parser \<Rightarrow> nat \<Rightarrow> page \<Rightarrow> outcome" where
  "copyCode_try html button s =
     (case closest_class (elems s) ''code-container'' button of
        None \<Rightarrow> Inl (TypeError, s)
      | Some codeContainer \<Rightarrow>
          (case querySelector_tag (elems s) codeContainer ''code'' of
             None \<Rightarrow> Inr (s\<lparr>console := console s @ [''Code block not found'']\<rparr>)
           | Some codeBlock \<Rightarrow>
               let codeText = (if textContent (elems s ! codeBlock) \<noteq> []
                               then textContent (elems s ! codeBlock)
                               else innerText (elems s ! codeBlock))
               in (case navigator_clipboard s of
                     Some Resolves \<Rightarrow>
                       Inr (showCopyFeedback html button (s\<lparr>clipboard := codeText\<rparr>))
                   | Some Rejects \<Rightarrow> Inl (ClipboardRejected, s)
                   | None \<Rightarrow>
                       let s1 = s\<lparr>elems := elems s @ [textArea codeText]\<rparr> in
                       (case execCommand_copy s of
                          ExecThrows \<Rightarrow> Inl (ExecCommandFailed, s1)
                        | ExecTrue \<Rightarrow>
                            Inr (showCopyFeedback html button
                                  (s1\<lparr>elems := butlast (elems s1), clipboard := codeText\<rparr>))
                        | ExecFalse \<Rightarrow>
                            Inr (showCopyFeedback html button
                                  (s1\<lparr>elems := butlast (elems s1)\<rparr>))))))"

text \<open>\<^verbatim>\<open>copyCode(button)\<close>, lines 70 to 106: the \<^verbatim>\<open>catch\<close> block logs and shows the error
  feedback.\<close>

definition copyCode :: "html_parser \<Rightarrow> nat \<Rightarrow> page \<Rightarrow> page" where
  "copyCode html button s =
     (case copyCode_try html button s of
        Inr s' \<Rightarrow> s'
      | Inl (err, s') \<Rightarrow>
          showCopyError html button
            (s'\<lparr>console := console s' @ [''Failed to copy code:'']\<rparr>))"

section \<open>The scroll spy\<close>

text \<open>
  \<^verbatim>\<open>initScrollSpy()\<close>, lines 222 to 254, looks the sections and the navigation items up once
  and hands the browser a callback with the options \<^verbatim>\<open>threshold: [0.5]\<close> and
  \<^verbatim>\<open>rootMargin: '-20% 0px -70% 0px'\<close>.
\<close>

record scroll_spy =
  spy_sections :: "nat list"
  spy_navItems :: "nat list"

definition initScrollSpy :: "page \<Rightarrow> scroll_spy" where
  "initScrollSpy s =
     \<lparr>spy_sections = querySelectorAll_class (elems s) ''content-section'',
      spy_navItems = querySelectorAll_class (elems s) ''nav-item''\<rparr>"

definition rootMargin_top :: rat where
  "rootMargin_top = - 20 / 100"

definition rootMargin_bottom :: rat where
  "rootMargin_bottom = - 70 / 100"

record entry =
  target :: nat
  isIntersecting :: bool
  intersectionRatio :: rat

text \<open>The body of the callback for one entry, lines 229 to 242.\<close>

definition spy_reads :: "entry \<Rightarrow> bool" where
  "spy_reads en = (isIntersecting en \<and> intersectionRatio en > 1 / 2)"

definition spy_entry :: "selector_engine \<Rightarrow> scroll_spy \<Rightarrow> entry \<Rightarrow> page \<Rightarrow> outcome" where
  "spy_entry css spy en s =
     (if spy_reads en then
        (let sectionId = ident (elems s ! target en) in
         case querySelector_onclick css (elems s) sectionId of
           Inl err \<Rightarrow> Inl (err, s)
         | Inr None \<Rightarrow> Inr s
         | Inr (Some correspondingNav) \<Rightarrow>
             Inr (s\<lparr>elems := upd correspondingNav (add_class [''active''])
                               (forEach (spy_navItems spy) (remove_class ''active'') (elems s)),
                    location_hash := (if has_replaceState s then replaceState_hash sectionId
                                      else location_hash s)\<rparr>))
      else Inr s)"

text \<open>\<^verbatim>\<open>entries.forEach(...)\<close>: a throw ends the callback and keeps what earlier entries did.\<close>

fun spy_callback :: "selector_engine \<Rightarrow> scroll_spy \<Rightarrow> entry list \<Rightarrow> page \<Rightarrow> outcome" where
  "spy_callback css spy [] s = Inr s"
| "spy_callback css spy (en # ens) s =
     (case spy_entry css spy en s of
        Inl x \<Rightarrow> Inl x
      | Inr s' \<Rightarrow> spy_callback css spy ens s')"

text \<open>
  What the browser reports for a section, by the Intersection Observer rules, in the vertical
  direction (a section is as wide as the viewport allows): the root margins are added to the
  viewport, of height \<open>H\<close>, to give the band the section is cut with; a section has its upper
  edge at \<open>y\<close> below the upper edge of the viewport and the height \<open>h\<close>. Touching edges
  count as intersecting, and an empty section has the ratio 1 when it intersects.
\<close>

definition root_band :: "rat \<Rightarrow> rat \<times> rat" where
  "root_band H = (0 - rootMargin_top * H, H + rootMargin_bottom * H)"

definition overlap :: "rat \<times> rat \<Rightarrow> rat \<Rightarrow> rat \<Rightarrow> rat" where
  "overlap band y h = min (y + h) (snd band) - max y (fst band)"

definition observe_entry :: "rat \<Rightarrow> nat \<Rightarrow> rat \<Rightarrow> rat \<Rightarrow> entry" where
  "observe_entry H i y h =
     (let hit = (fst (root_band H) \<le> snd (root_band H) \<and> 0 \<le> overlap (root_band H) y h) in
      \<lparr>target = i, isIntersecting = hit,
       intersectionRatio =
         (if hit then (if h > 0 then overlap (root_band H) y h / h else 1) else 0)\<rparr>)"


section \<open>A sample page\<close>

text \<open>
  The scenario of the specification: the sections \<^verbatim>\<open>intro\<close>, \<^verbatim>\<open>api\<close> and \<^verbatim>\<open>faq\<close>, one
  navigation item for each inside the sidebar, the menu button, and a code container with its
  code and its copy button inside \<^verbatim>\<open>api\<close>. The last element is a copy button outside every
  code container.
\<close>

definition el :: "string \<Rightarrow> string \<Rightarrow> string \<Rightarrow> string option \<Rightarrow> string \<Rightarrow> nat option \<Rightarrow> element" where
  "el t i c oc html p =
     \<lparr>tag = t, ident = i, className = c, onclick = oc, innerHTML = html,
      textContent = [], innerText = [], val = [], style = [], parent = p\<rparr>"

definition sample_elems :: "element list" where
  "sample_elems =
     [el ''nav'' ''sidebar'' ''sidebar'' None [] None,
      el ''a'' [] ''nav-item active'' (Some ''showSection('intro', this)'') ''Intro'' (Some 0),
      el ''a'' [] ''nav-item'' (Some ''showSection('api', this)'') ''API'' (Some 0),
      el ''a'' [] ''nav-item'' (Some ''showSection('faq', this)'') ''FAQ'' (Some 0),
      el ''button'' [] ''menu-toggle'' (Some ''toggleSidebar()'') ''Menu'' None,
      el ''section'' ''intro'' ''content-section active'' None [] None,
      el ''section'' ''api'' ''content-section'' None [] None,
      el ''section'' ''faq'' ''content-section'' None [] None,
      el ''div'' [] ''code-container'' None [] (Some 6),
      (el ''code'' [] [] None ''npm install'' (Some 8))\<lparr>textContent := ''npm install''\<rparr>,
      el ''button'' [] ''copy-btn'' (Some ''copyCode(this)'') ''Copy'' (Some 8),
      el ''button'' [] ''copy-btn'' (Some ''copyCode(this)'') ''Copy'' None]"

definition sample_page :: page where
  "sample_page =
     \<lparr>elems = sample_elems, body_overflow = [], innerWidth = 1280, location_hash = [],
      history_length = 1, has_replaceState = True, scrollY = 300, console = [], clock = 0,
      timers = [], navigator_clipboard = Some Resolves, execCommand_copy = ExecTrue,
      clipboard = []\<rparr>"

text \<open>
  On the markup of the sample page (plain text, or one empty \<^verbatim>\<open>i\<close> element with a class) the
  HTML parser builds content that serialises to the same text: \<open>verbatim_parser\<close>. Every
  lookup on the sample page is for plain text, where the selector engine is not consulted;
  \<open>refusing_css\<close> fills its place.
\<close>

definition verbatim_parser :: html_parser where
  "verbatim_parser t = t"

definition refusing_css :: selector_engine where
  "refusing_css es h = Inl SyntaxError"

text \<open>Which sections and which navigation items are marked, by position; whether the sidebar is
  open.\<close>

definition active_sections :: "page \<Rightarrow> nat list" where
  "active_sections s =
     filter (\<lambda>i. has_class ''content-section'' (elems s ! i) \<and> has_class ''active'' (elems s ! i))
       [0..<length (elems s)]"

definition active_navItems :: "page \<Rightarrow> nat list" where
  "active_navItems s =
     filter (\<lambda>i. has_class ''nav-item'' (elems s ! i) \<and> has_class ''active'' (elems s ! i))
       [0..<length (elems s)]"

definition sidebar_open :: "page \<Rightarrow> bool" where
  "sidebar_open s =
     (case getElementById (elems s) ''sidebar'' of
        None \<Rightarrow> False
      | Some sb \<Rightarrow> has_class ''open'' (elems s ! sb))"

definition scroll_locked :: "page \<Rightarrow> bool" where
  "scroll_locked s = (body_overflow s = ''hidden'')"

text \<open>The sample page on a narrow viewport, its menu button without the class
  \<^verbatim>\<open>menu-toggle\<close>, so that \<^verbatim>\<open>querySelector('.menu-toggle')\<close> finds nothing.\<close>

definition no_toggle_page :: page where
  "no_toggle_page =
     sample_page\<lparr>innerWidth := 500, elems := upd 4 (remove_class ''menu-toggle'') sample_elems\<rparr>"

section \<open>Auxiliary notions\<close>

text \<open>A class token as \<^verbatim>\<open>classList\<close> accepts it: not empty and free of whitespace.\<close>

definition tok_ok :: "string \<Rightarrow> bool" where
  "tok_ok t = (t \<noteq> [] \<and> list_all (\<lambda>c. \<not> is_ws c) t)"

text \<open>What \<^verbatim>\<open>showSection\<close> makes of the element at position \<open>i\<close>: the five updates of the
  function in their order, each applied where it reaches that element.\<close>

definition showSection_at :: "string \<Rightarrow> nat option \<Rightarrow> page \<Rightarrow> nat \<Rightarrow> element" where
  "showSection_at sectionId element s i =
     (let e0 = elems s ! i;
          e1 = (if has_class ''content-section'' e0 then remove_class ''active'' e0 else e0);
          e2 = (if getElementById (elems s) sectionId = Some i
                then add_class [''active''] e1 else e1);
          e3 = (if has_class ''nav-item'' e0 then remove_class ''active'' e2 else e2);
          e4 = (if element = Some i then add_class [''active''] e3 else e3)
      in if innerWidth s \<le> 768 \<and> getElementById (elems s) ''sidebar'' = Some i
         then remove_class ''open'' e4 else e4)"

text \<open>
  The reading policy in the specification's words, for comparison with the code: a section
  is currently read when at least half of it lies within the band from 10% to 80% of the
  viewport's height.
\<close>

definition spec_currently_read :: "rat \<Rightarrow> rat \<Rightarrow> rat \<Rightarrow> bool" where
  "spec_currently_read H y h =
     (h \<le> 2 * (min (y + h) (80 * H / 100) - max y (10 * H / 100)))"







text \<open>
  Modelled from the spec: the page markup is not among the sources; by the specification each
  navigation entry carries an association to a section identifier. As on the sample page, the
  entry's \<^verbatim>\<open>onclick\<close> attribute is a call of \<^verbatim>\<open>showSection\<close> whose first argument is the
  identifier in single quotes.
\<close>

definition nav_item_for :: "string \<Rightarrow> element \<Rightarrow> bool" where
  "nav_item_for sid e =
     (has_class ''nav-item'' e \<and>
      (case onclick e of
         None \<Rightarrow> False
       | Some a \<Rightarrow> prefix (''showSection('' @ [CHR 0x27] @ sid @ [CHR 0x27]) a))"

text \<open>
  The sample page with the section \<^verbatim>\<open>api-v2\<close> and its navigation item in the place of
  \<^verbatim>\<open>intro\<close>, before \<^verbatim>\<open>api\<close>; and the pages as they are loaded with a fragment.
\<close>

definition versions_page :: page where
  "versions_page =
     sample_page\<lparr>elems := sample_elems
       [1 := el ''a'' [] ''nav-item active''
               (Some (''showSection('' @ [CHR 0x27] @ ''api-v2'' @ [CHR 0x27] @ '', this)''))
               ''API v2'' (Some 0),
        5 := el ''section'' ''api-v2'' ''content-section active'' None [] None]\<rparr>"

definition menu_hash_page :: page where
  "menu_hash_page = sample_page\<lparr>location_hash := ''#toggleSidebar''\<rparr>"

definition versions_hash_page :: page where
  "versions_hash_page = versions_page\<lparr>location_hash := ''#api''\<rparr>"

text \<open>Text that the URL parser leaves as it is in a fragment.\<close>

definition fragment_plain :: "string \<Rightarrow> bool" where
  "fragment_plain t = (t \<noteq> [] \<and> list_all (\<lambda>c. \<not> in_fragment_set c) t)"

section \<open>Properties of the lookups and updates\<close>

subsection \<open>Class tokens\<close>

lemma split_ws_ok:
  "list_all (\<lambda>c. \<not> is_ws c) cur \<Longrightarrow> t \<in> set (split_ws cur s) \<Longrightarrow> tok_ok t"
proof (induction s arbitrary: cur)
  case Nil
  then show ?case by (simp add: tok_ok_def split: if_splits)
next
  case (Cons c cs)
  show ?case
  proof (cases "is_ws c")
    case True
    then have "t = cur \<and> cur \<noteq> [] \<or> t \<in> set (split_ws [] cs)"
      using Cons.prems(2) by (simp split: if_splits)
    then show ?thesis
    proof
      assume "t = cur \<and> cur \<noteq> []"
      then show ?thesis using Cons.prems(1) by (simp add: tok_ok_def)
    next
      assume "t \<in> set (split_ws [] cs)"
      then show ?thesis using Cons.IH [of "[]"] by simp
    qed
  next
    case False
    then have "t \<in> set (split_ws (cur @ [c]) cs)"
      using Cons.prems(2) by simp
    moreover have "list_all (\<lambda>x. \<not> is_ws x) (cur @ [c])"
      using Cons.prems(1) False by simp
    ultimately show ?thesis using Cons.IH by blast
  qed
qed

lemma ordered_set_id: "distinct ts \<Longrightarrow> ordered_set ts = ts"
  by (simp add: ordered_set_def distinct_remdups_id)

lemma class_tokens_ok: "t \<in> set (class_tokens s) \<Longrightarrow> tok_ok t"
  using split_ws_ok [of "[]" t s] by (simp add: class_tokens_def ordered_set_def)

lemma distinct_class_tokens: "distinct (class_tokens s)"
  by (simp add: class_tokens_def ordered_set_def)

lemma split_ws_token:
  "list_all (\<lambda>c. \<not> is_ws c) t \<Longrightarrow> split_ws cur (t @ rest) = split_ws (cur @ t) rest"
proof (induction t arbitrary: cur)
  case Nil
  then show ?case by simp
next
  case (Cons c t)
  then have "split_ws (cur @ [c]) (t @ rest) = split_ws ((cur @ [c]) @ t) rest"
    by simp
  with Cons.prems show ?case by simp
qed

lemma split_ws_serialize:
  "list_all tok_ok ts \<Longrightarrow> split_ws [] (serialize_tokens ts) = ts"
proof (induction ts rule: serialize_tokens.induct)
  case 1
  then show ?case by simp
next
  case (2 t)
  then have "split_ws [] (t @ []) = split_ws ([] @ t) []"
    by (intro split_ws_token) (simp add: tok_ok_def)
  with 2 show ?case by (simp add: tok_ok_def)
next
  case (3 t u ts)
  then have "split_ws [] (t @ CHR '' '' # serialize_tokens (u # ts))
      = split_ws ([] @ t) (CHR '' '' # serialize_tokens (u # ts))"
    by (intro split_ws_token) (simp add: tok_ok_def)
  with 3 show ?case by (simp add: tok_ok_def is_ws_def)
qed

lemma class_tokens_serialize:
  "distinct ts \<Longrightarrow> list_all tok_ok ts \<Longrightarrow> class_tokens (serialize_tokens ts) = ts"
  by (simp add: class_tokens_def split_ws_serialize ordered_set_id)

lemma contains_remove:
  "classList_contains c (classList_remove d s) = (c \<noteq> d \<and> classList_contains c s)"
proof -
  have "class_tokens (serialize_tokens (filter (\<lambda>t. t \<noteq> d) (class_tokens s)))
      = filter (\<lambda>t. t \<noteq> d) (class_tokens s)"
    by (intro class_tokens_serialize)
       (auto simp: distinct_class_tokens class_tokens_ok list_all_iff)
  then show ?thesis
    by (auto simp: classList_contains_def classList_remove_def)
qed

lemma append_tokens_props:
  "distinct ts \<Longrightarrow> distinct (foldl append_token ts cs) \<and>
     set (foldl append_token ts cs) = set ts \<union> set cs"
  by (induction cs arbitrary: ts) (auto simp: append_token_def)

lemma contains_add:
  assumes "list_all tok_ok ds"
  shows "classList_contains c (classList_add ds s) = (c \<in> set ds \<or> classList_contains c s)"
proof -
  let ?ts = "foldl append_token (class_tokens s) ds"
  have p: "distinct ?ts" "set ?ts = set (class_tokens s) \<union> set ds"
    using append_tokens_props [OF distinct_class_tokens] by auto
  have "class_tokens (serialize_tokens ?ts) = ?ts"
    using assms p by (intro class_tokens_serialize) (auto simp: class_tokens_ok list_all_iff)
  then show ?thesis
    using p by (auto simp: classList_contains_def classList_add_def)
qed

lemma tok_ok_active: "list_all tok_ok [''active'']"
  by code_simp

lemma tok_ok_open: "list_all tok_ok [''open'']"
  by code_simp

lemma has_class_remove [simp]:
  "has_class c (remove_class d e) = (c \<noteq> d \<and> has_class c e)"
  by (simp add: has_class_def remove_class_def contains_remove)

lemma has_class_add_active [simp]:
  "has_class c (add_class [''active''] e) = (c = ''active'' \<or> has_class c e)"
  using contains_add [OF tok_ok_active, of c "className e"]
  by (simp add: has_class_def add_class_def)

lemma has_class_toggle_open:
  "has_class ''open'' (toggle_class ''open'' e) = (\<not> has_class ''open'' e)"
  using contains_add [OF tok_ok_open, of "''open''" "className e"]
  by (simp add: has_class_def toggle_class_def classList_toggle_def contains_remove)

lemma ident_class_ops [simp]:
  "ident (remove_class d e) = ident e"
  "ident (add_class ds e) = ident e"
  "ident (toggle_class d e) = ident e"
  by (simp_all add: remove_class_def add_class_def toggle_class_def)

subsection \<open>Updating elements\<close>

lemma length_upd [simp]: "length (upd i f es) = length es"
  by (simp add: upd_def)

lemma nth_upd: "j < length es \<Longrightarrow> upd i f es ! j = (if j = i then f (es ! j) else es ! j)"
  by (simp add: upd_def nth_list_update)

lemma length_forEach [simp]: "length (forEach ns f es) = length es"
  unfolding forEach_def by (induction ns arbitrary: es) simp_all

lemma nth_forEach:
  "distinct ns \<Longrightarrow> j < length es \<Longrightarrow>
     forEach ns f es ! j = (if j \<in> set ns then f (es ! j) else es ! j)"
  unfolding forEach_def
proof (induction ns arbitrary: es)
  case Nil
  then show ?case by simp
next
  case (Cons n ns)
  have "fold (\<lambda>i. upd i f) ns (upd n f es) ! j
      = (if j \<in> set ns then f (upd n f es ! j) else upd n f es ! j)"
    using Cons.prems by (intro Cons.IH) simp_all
  then show ?case using Cons.prems by (auto simp: nth_upd)
qed

lemma set_querySelectorAll_class:
  "set (querySelectorAll_class es c) = {i. i < length es \<and> has_class c (es ! i)}"
  by (auto simp: querySelectorAll_class_def)

lemma distinct_querySelectorAll_class [simp]: "distinct (querySelectorAll_class es c)"
  by (simp add: querySelectorAll_class_def)

lemma getElementById_cong:
  assumes "length es' = length es" "\<And>i. i < length es \<Longrightarrow> ident (es' ! i) = ident (es ! i)"
  shows "getElementById es' s = getElementById es s"
  unfolding getElementById_def using assms
  by (auto intro!: find_cong)

lemma getElementById_SomeD:
  "getElementById es s = Some i \<Longrightarrow> i < length es \<and> ident (es ! i) = s"
  by (auto simp: getElementById_def find_Some_iff split: if_splits)

subsection \<open>\<^verbatim>\<open>showSection\<close>, element by element\<close>

lemma elems_showSection:
  "elems (showSection sectionId element s)
     = map (showSection_at sectionId element s) [0..<length (elems s)]"
proof -
  define es1 where
    "es1 = forEach (querySelectorAll_class (elems s) ''content-section'')
             (remove_class ''active'') (elems s)"
  define es2 where
    "es2 = (case getElementById es1 sectionId of
              Some t \<Rightarrow> upd t (add_class [''active'']) es1 | None \<Rightarrow> es1)"
  define es3 where
    "es3 = forEach (querySelectorAll_class es2 ''nav-item'') (remove_class ''active'') es2"
  define es4 where
    "es4 = (case element of Some e \<Rightarrow> upd e (add_class [''active'']) es3 | None \<Rightarrow> es3)"
  define es5 where
    "es5 = (if innerWidth s \<le> 768 then
              (case getElementById es4 ''sidebar'' of
                 Some sidebar \<Rightarrow> upd sidebar (remove_class ''open'') es4
               | None \<Rightarrow> es4)
            else es4)"
  have res: "elems (showSection sectionId element s) = es5"
    unfolding showSection_def Let_def es5_def es4_def es3_def es2_def es1_def by simp
  have l1: "length es1 = length (elems s)"
    by (simp add: es1_def)
  have n1: "es1 ! j = (if has_class ''content-section'' (elems s ! j)
                       then remove_class ''active'' (elems s ! j) else elems s ! j)"
    if "j < length (elems s)" for j
    using that by (simp add: es1_def nth_forEach set_querySelectorAll_class)
  have g1: "getElementById es1 x = getElementById (elems s) x" for x
    by (rule getElementById_cong) (simp_all add: l1 n1)
  have l2: "length es2 = length (elems s)"
    by (simp add: es2_def l1 split: option.splits)
  have n2: "es2 ! j = (if getElementById (elems s) sectionId = Some j
                       then add_class [''active''] (es1 ! j) else es1 ! j)"
    if "j < length (elems s)" for j
    using that by (auto simp: es2_def g1 nth_upd l1 split: option.splits)
  have g2: "getElementById es2 x = getElementById (elems s) x" for x
    by (rule getElementById_cong) (simp_all add: l2 n2 n1)
  have nav2: "has_class ''nav-item'' (es2 ! j) = has_class ''nav-item'' (elems s ! j)"
    if "j < length (elems s)" for j
    using that by (simp add: n2 n1)
  have l3: "length es3 = length (elems s)"
    by (simp add: es3_def l2)
  have n3: "es3 ! j = (if has_class ''nav-item'' (elems s ! j)
                       then remove_class ''active'' (es2 ! j) else es2 ! j)"
    if "j < length (elems s)" for j
    using that by (simp add: es3_def nth_forEach set_querySelectorAll_class l2 nav2)
  have l4: "length es4 = length (elems s)"
    by (simp add: es4_def l3 split: option.splits)
  have n4: "es4 ! j = (if element = Some j then add_class [''active''] (es3 ! j) else es3 ! j)"
    if "j < length (elems s)" for j
    using that by (auto simp: es4_def nth_upd l3 split: option.splits)
  have g4: "getElementById es4 x = getElementById (elems s) x" for x
    by (rule getElementById_cong) (simp_all add: l4 n4 n3 n2 n1)
  have n5: "es5 ! j = (if innerWidth s \<le> 768 \<and> getElementById (elems s) ''sidebar'' = Some j
                       then remove_class ''open'' (es4 ! j) else es4 ! j)"
    if "j < length (elems s)" for j
    using that by (auto simp: es5_def g4 nth_upd l4 split: option.splits)
  have l5: "length es5 = length (elems s)"
    by (simp add: es5_def l4 split: option.splits)
  show ?thesis
    unfolding res
    by (rule nth_equalityI) (simp_all add: l5 n5 n4 n3 n2 n1 showSection_at_def Let_def)
qed

lemma length_showSection [simp]:
  "length (elems (showSection sectionId element s)) = length (elems s)"
  by (simp add: elems_showSection)

lemma nth_showSection:
  "i < length (elems s) \<Longrightarrow>
     elems (showSection sectionId element s) ! i = showSection_at sectionId element s i"
  by (simp add: elems_showSection)

lemma filter_upt_single:
  assumes "t < n" "\<And>i. i < n \<Longrightarrow> P i = (i = t)"
  shows "filter P [0..<n] = [t]"
proof -
  have "filter P [0..<n] = filter (\<lambda>i. i = t) [0..<n]"
    using assms(2) by (intro filter_cong) auto
  also have "\<dots> = [t]"
    using assms(1) by (induction n) auto
  finally show ?thesis .
qed

lemma active_after_showSection:
  "i < length (elems s) \<Longrightarrow>
   has_class ''active'' (elems (showSection sectionId element s) ! i)
     = (element = Some i \<or>
        \<not> has_class ''nav-item'' (elems s ! i) \<and>
          (getElementById (elems s) sectionId = Some i \<or>
           \<not> has_class ''content-section'' (elems s ! i) \<and> has_class ''active'' (elems s ! i)))"
  by (auto simp: nth_showSection showSection_at_def Let_def)

lemma kind_after_showSection:
  "i < length (elems s) \<Longrightarrow> c \<noteq> ''active'' \<Longrightarrow> c \<noteq> ''open'' \<Longrightarrow>
   has_class c (elems (showSection sectionId element s) ! i) = has_class c (elems s ! i)"
  by (auto simp: nth_showSection showSection_at_def Let_def)

lemma ident_after_showSection:
  "i < length (elems s) \<Longrightarrow> ident (elems (showSection sectionId element s) ! i) = ident (elems s ! i)"
  by (auto simp: nth_showSection showSection_at_def Let_def)

lemma showSection_marks:
  assumes t: "getElementById (elems s) S = Some t"
    and ts: "has_class ''content-section'' (elems s ! t)" "\<not> has_class ''nav-item'' (elems s ! t)"
    and n: "n < length (elems s)"
    and ns: "has_class ''nav-item'' (elems s ! n)" "\<not> has_class ''content-section'' (elems s ! n)"
  shows "active_sections (showSection S (Some n) s) = [t]"
    and "active_navItems (showSection S (Some n) s) = [n]"
    and "ident (elems (showSection S (Some n) s) ! t) = S"
proof -
  have tl: "t < length (elems s)" and tid: "ident (elems s ! t) = S"
    using getElementById_SomeD [OF t] by simp_all
  show "active_sections (showSection S (Some n) s) = [t]"
    unfolding active_sections_def length_showSection
    using tl ts ns t
    by (intro filter_upt_single) (auto simp: active_after_showSection kind_after_showSection)
  show "active_navItems (showSection S (Some n) s) = [n]"
    unfolding active_navItems_def length_showSection
    using n ns
    by (intro filter_upt_single) (auto simp: active_after_showSection kind_after_showSection)
  show "ident (elems (showSection S (Some n) s) ! t) = S"
    using tl tid by (simp add: ident_after_showSection)
qed

lemma getElementById_upd:
  "(\<And>e. ident (f e) = ident e) \<Longrightarrow> getElementById (upd i f es) x = getElementById es x"
  by (rule getElementById_cong) (simp_all add: nth_upd)

lemma sidebar_open_iff:
  "sidebar_open s =
     (\<exists>sb. getElementById (elems s) ''sidebar'' = Some sb \<and> has_class ''open'' (elems s ! sb))"
  by (simp add: sidebar_open_def split: option.splits)

lemma sidebar_closed_after_remove:
  assumes "getElementById (elems s) ''sidebar'' = Some sb"
    and "elems s' = upd sb (remove_class ''open'') (elems s)"
  shows "\<not> sidebar_open s'"
proof -
  have "sb < length (elems s)"
    using assms(1) getElementById_SomeD by blast
  then show ?thesis
    using assms by (simp add: sidebar_open_iff getElementById_upd nth_upd)
qed

lemma sidebar_closed_without_sidebar:
  "getElementById (elems s) ''sidebar'' = None \<Longrightarrow> \<not> sidebar_open s"
  by (simp add: sidebar_open_iff)


lemma url_fragment_plain:
  assumes "list_all (\<lambda>c. \<not> in_fragment_set c) t"
  shows "url_fragment t = t"
proof -
  have a: "\<not> in_fragment_set c" if "c \<in> set t" for c
    using that assms by (simp add: list_all_iff)
  have "dropWhile c0_or_space (rev t) = rev t"
  proof (cases "rev t")
    case Nil
    then show ?thesis by simp
  next
    case (Cons c cs)
    then have "c \<in> set t" by (metis list.set_intros(1) set_rev)
    then have "\<not> c0_or_space c"
      using a [of c] by (simp add: c0_or_space_def in_fragment_set_def)
    then show ?thesis using Cons by simp
  qed
  then have 1: "rev (dropWhile c0_or_space (rev t)) = t"
    by simp
  have "\<not> tab_or_newline c" if "c \<in> set t" for c
    using a [OF that] by (auto simp: tab_or_newline_def in_fragment_set_def)
  then have 2: "filter (\<lambda>c. \<not> tab_or_newline c) t = t"
    by (intro filter_True) simp
  have 3: "map (\<lambda>c. if in_fragment_set c then percent_encode c else [c]) t = map (\<lambda>c. [c]) t"
    using a by (intro map_cong) simp_all
  have 4: "concat (map (\<lambda>c. [c]) xs) = xs" for xs :: string
    by (induction xs) simp_all
  show ?thesis
    by (simp add: url_fragment_def 1 2 3 4)
qed

lemma replaceState_hash_plain:
  "fragment_plain t \<Longrightarrow> replaceState_hash t = CHR ''#'' # t"
  by (simp add: fragment_plain_def replaceState_hash_def url_fragment_plain)

subsection \<open>Sidebar and scroll lock under the other sidebar operations\<close>

text \<open>\<^verbatim>\<open>toggleSidebar\<close>, the outside click, the keyboard handler and \<^verbatim>\<open>handleResize\<close> set
  the lock together with the sidebar: a page where the two agree stays so.\<close>

lemma sidebar_open_upd:
  assumes "getElementById (elems s) ''sidebar'' = Some sb"
    and "elems s' = upd sb f (elems s)" and "\<And>e. ident (f e) = ident e"
  shows "sidebar_open s' = has_class ''open'' (f (elems s ! sb))"
proof -
  have "sb < length (elems s)"
    using assms(1) getElementById_SomeD by blast
  then show ?thesis
    using assms by (simp add: sidebar_open_iff getElementById_upd nth_upd)
qed

lemma toggleSidebar_sync:
  assumes "getElementById (elems s) ''sidebar'' = Some sb"
  shows "sidebar_open (toggleSidebar s) = scroll_locked (toggleSidebar s)"
proof -
  have sb: "sb < length (elems s)"
    using assms getElementById_SomeD by blast
  have e: "elems (toggleSidebar s) = upd sb (toggle_class ''open'') (elems s)"
    using assms by (simp add: toggleSidebar_def Let_def)
  have "sidebar_open (toggleSidebar s) = has_class ''open'' (toggle_class ''open'' (elems s ! sb))"
    using assms e by (rule sidebar_open_upd) simp
  moreover have "scroll_locked (toggleSidebar s)
      = has_class ''open'' (toggle_class ''open'' (elems s ! sb))"
    using assms sb by (simp add: toggleSidebar_def Let_def scroll_locked_def nth_upd)
  ultimately show ?thesis by simp
qed

lemma toggleSidebar_keeps_sync:
  "sidebar_open s = scroll_locked s \<Longrightarrow>
   sidebar_open (toggleSidebar s) = scroll_locked (toggleSidebar s)"
proof (cases "getElementById (elems s) ''sidebar''")
  case None
  assume "sidebar_open s = scroll_locked s"
  then show ?thesis using None by (simp add: toggleSidebar_def)
next
  case (Some sb)
  then show ?thesis by (rule toggleSidebar_sync)
qed

lemma closed_and_unlocked:
  assumes "getElementById (elems s) ''sidebar'' = Some sb"
    and "s' = s\<lparr>elems := upd sb (remove_class ''open'') (elems s), body_overflow := []\<rparr>"
  shows "sidebar_open s' = scroll_locked s'"
proof -
  have "\<not> sidebar_open s'"
    using assms by (intro sidebar_closed_after_remove [of s sb]) simp_all
  then show ?thesis using assms(2) by (simp add: scroll_locked_def)
qed

lemma handleOutsideClick_keeps_sync:
  assumes "sidebar_open s = scroll_locked s" "handleOutsideClick t s = Inr s'"
  shows "sidebar_open s' = scroll_locked s'"
proof (cases "s' = s")
  case True
  then show ?thesis using assms(1) by simp
next
  case False
  then obtain sb where "getElementById (elems s) ''sidebar'' = Some sb"
    "s' = s\<lparr>elems := upd sb (remove_class ''open'') (elems s), body_overflow := []\<rparr>"
    using assms(2)
    by (auto simp: handleOutsideClick_def Let_def split: if_splits option.splits)
  then show ?thesis by (rule closed_and_unlocked)
qed

lemma escape_keeps_sync:
  assumes "sidebar_open s = scroll_locked s"
  shows "sidebar_open (handleKeyboardNavigation ev s)
       = scroll_locked (handleKeyboardNavigation ev s)"
proof -
  define s1 where "s1 = (if key ev = ''Escape'' then
                  (case getElementById (elems s) ''sidebar'' of
                     None \<Rightarrow> s
                   | Some sb \<Rightarrow>
                       if has_class ''open'' (elems s ! sb) then
                         s\<lparr>elems := upd sb (remove_class ''open'') (elems s),
                           body_overflow := []\<rparr>
                       else s)
                else s)"
  have 1: "sidebar_open s1 = scroll_locked s1"
  proof (cases "s1 = s")
    case True
    then show ?thesis using assms by simp
  next
    case False
    then obtain sb where "getElementById (elems s) ''sidebar'' = Some sb"
      "s1 = s\<lparr>elems := upd sb (remove_class ''open'') (elems s), body_overflow := []\<rparr>"
      by (auto simp: s1_def split: if_splits option.splits)
    then show ?thesis by (rule closed_and_unlocked)
  qed
  have "handleKeyboardNavigation ev s
      = (if altKey ev \<and> (key ev = ''m'' \<or> key ev = ''M'') then toggleSidebar s1 else s1)"
    unfolding handleKeyboardNavigation_def Let_def s1_def by simp
  then show ?thesis
    using 1 toggleSidebar_keeps_sync [OF 1] by simp
qed

lemma handleResize_keeps_sync:
  assumes "sidebar_open s = scroll_locked s"
  shows "sidebar_open (handleResize s) = scroll_locked (handleResize s)"
proof (cases "innerWidth s > 768")
  case False
  then show ?thesis using assms by (simp add: handleResize_def)
next
  case True
  show ?thesis
  proof (cases "getElementById (elems s) ''sidebar''")
    case None
    then have "\<not> sidebar_open (handleResize s)"
      using True by (intro sidebar_closed_without_sidebar) (simp add: handleResize_def)
    then show ?thesis using True by (simp add: handleResize_def scroll_locked_def)
  next
    case (Some sb)
    then show ?thesis
      using True by (intro closed_and_unlocked [of s sb]) (simp_all add: handleResize_def)
  qed
qed

subsection \<open>The scroll spy\<close>

lemma root_band_eq: "root_band H = (H / 5, 3 * H / 10)"
  by (simp add: root_band_def rootMargin_top_def rootMargin_bottom_def field_simps)

lemma spy_reads_observe:
  "spy_reads (observe_entry H i y h)
     = (0 \<le> H \<and>
        (if 0 < h then h < 2 * (min (y + h) (3 * H / 10) - max y (H / 5))
         else 0 \<le> min (y + h) (3 * H / 10) - max y (H / 5)))"
proof -
  let ?o = "min (y + h) (3 * H / 10) - max y (H / 5)"
  have band: "(H / 5 \<le> 3 * H / 10) = (0 \<le> H)" by auto
  show ?thesis
  proof (cases "0 < h")
    case True
    have "spy_reads (observe_entry H i y h) = (0 \<le> H \<and> 0 \<le> ?o \<and> 1 / 2 < ?o / h)"
      using True
      by (auto simp: spy_reads_def observe_entry_def Let_def root_band_eq overlap_def band)
    moreover have "(1 / 2 < ?o / h) = (h < 2 * ?o)"
      using True by (simp add: field_simps)
    moreover have "h < 2 * x \<Longrightarrow> 0 \<le> x" for x :: rat
      using True by linarith
    ultimately show ?thesis using True by auto
  next
    case False
    then show ?thesis
      by (auto simp: spy_reads_def observe_entry_def Let_def root_band_eq overlap_def band)
  qed
qed

lemma target_observe [simp]: "target (observe_entry H i y h) = i"
  by (simp add: observe_entry_def Let_def)

lemma spy_marks:
  assumes n: "n < length (elems s)"
    and nav: "has_class ''nav-item'' (elems s ! n)"
    and s': "s' = s\<lparr>elems := upd n (add_class [''active''])
                (forEach (spy_navItems (initScrollSpy s)) (remove_class ''active'') (elems s)),
              location_hash := hh\<rparr>"
  shows "active_navItems s' = [n]"
    and "length (elems s') = length (elems s)"
    and "\<And>j. j < length (elems s) \<Longrightarrow> \<not> has_class ''nav-item'' (elems s ! j) \<Longrightarrow>
           elems s' ! j = elems s ! j"
proof -
  have nth: "elems s' ! j =
      (if j = n then add_class [''active''] (remove_class ''active'' (elems s ! j))
       else if has_class ''nav-item'' (elems s ! j) then remove_class ''active'' (elems s ! j)
       else elems s ! j)" if "j < length (elems s)" for j
    using that nav
    by (simp add: s' nth_upd nth_forEach initScrollSpy_def set_querySelectorAll_class)
  show l: "length (elems s') = length (elems s)"
    by (simp add: s')
  show "active_navItems s' = [n]"
    unfolding active_navItems_def l
    using n nav by (intro filter_upt_single) (auto simp: nth)
  show "elems s' ! j = elems s ! j"
    if "j < length (elems s)" "\<not> has_class ''nav-item'' (elems s ! j)" for j
    using that nav by (auto simp: nth)
qed

subsection \<open>Timeouts\<close>











section \<open>Selecting a section\<close>

text \<open>
  Claim C6. When the key \<open>S\<close> names a section (the element \<^verbatim>\<open>getElementById\<close> finds for \<open>S\<close>
  is a content section, and not itself a navigation item) and \<^verbatim>\<open>showSection\<close> is called with
  a navigation item \<open>n\<close> (which is not itself a content section), then afterwards exactly one
  section is marked visible, it is the one with the id \<open>S\<close>, and exactly one navigation item
  is active, the one passed.
\<close>

theorem showSection_selects_one:
  assumes "getElementById (elems s) S = Some t"
    and "has_class ''content-section'' (elems s ! t)"
    and "\<not> has_class ''nav-item'' (elems s ! t)"
    and "n < length (elems s)"
    and "has_class ''nav-item'' (elems s ! n)"
    and "\<not> has_class ''content-section'' (elems s ! n)"
  shows "active_sections (showSection S (Some n) s) = [t]
       \<and> ident (elems (showSection S (Some n) s) ! t) = S
       \<and> active_navItems (showSection S (Some n) s) = [n]"
  using showSection_marks [OF assms] by simp

theorem showSection_selects_one_witness:
  "getElementById (elems sample_page) ''api'' = Some 6
   \<and> has_class ''content-section'' (elems sample_page ! 6)
   \<and> \<not> has_class ''nav-item'' (elems sample_page ! 6)
   \<and> 2 < length (elems sample_page)
   \<and> has_class ''nav-item'' (elems sample_page ! 2)
   \<and> \<not> has_class ''content-section'' (elems sample_page ! 2)
   \<and> active_sections sample_page = [5]
   \<and> active_sections (showSection ''api'' (Some 2) sample_page) = [6]
   \<and> ident (elems (showSection ''api'' (Some 2) sample_page) ! 6) = ''api''
   \<and> active_navItems (showSection ''api'' (Some 2) sample_page) = [2]"
proof -
  have 1: "getElementById (elems sample_page) ''api'' = Some 6" by code_simp
  have 2: "has_class ''content-section'' (elems sample_page ! 6)" by code_simp
  have 3: "\<not> has_class ''nav-item'' (elems sample_page ! 6)" by code_simp
  have 4: "2 < length (elems sample_page)" by code_simp
  have 5: "has_class ''nav-item'' (elems sample_page ! 2)" by code_simp
  have 6: "\<not> has_class ''content-section'' (elems sample_page ! 2)" by code_simp
  have 7: "active_sections sample_page = [5]" by code_simp
  show ?thesis
    using 1 2 3 4 5 6 7 showSection_selects_one [OF 1 2 3 4 5 6] by simp
qed

text \<open>
  Claim C10, as stated, fails: the fragment is not always \<^verbatim>\<open>#\<close> followed by the key. For the
  key \<^verbatim>\<open>a b\<close> the URL parser encodes the space and \<^verbatim>\<open>location.hash\<close> reads \<^verbatim>\<open>#a%20b\<close>; for the
  empty key the fragment is empty and \<^verbatim>\<open>location.hash\<close> reads the empty text.
\<close>

theorem showSection_hash_is_encoded:
  "has_replaceState sample_page
   \<and> location_hash (showSection ''a b'' None sample_page) = ''#a%20b''
   \<and> location_hash (showSection ''a b'' None sample_page) \<noteq> CHR ''#'' # ''a b''
   \<and> location_hash (showSection [] None sample_page) = []
   \<and> location_hash (showSection [] None sample_page) \<noteq> CHR ''#'' # []"
  by code_simp

text \<open>
  Claim C10, amended. Whatever the section key, and whether or not an element carries it as
  its id, \<^verbatim>\<open>showSection\<close> replaces the fragment of the address by what the URL parser makes of
  the key, as long as \<^verbatim>\<open>history.replaceState\<close> exists; \<^verbatim>\<open>location.hash\<close> then reads \<^verbatim>\<open>#\<close>
  followed by the key itself when the key is not empty and has no byte of the fragment
  percent-encode set. On the sample page the key \<^verbatim>\<open>nope\<close> names nothing and the fragment
  becomes \<^verbatim>\<open>#nope\<close>.
\<close>

theorem showSection_replaces_hash:
  assumes "has_replaceState s"
  shows "location_hash (showSection sectionId element s) = replaceState_hash sectionId
       \<and> (fragment_plain sectionId
            \<longrightarrow> location_hash (showSection sectionId element s) = CHR ''#'' # sectionId)"
  using assms by (simp add: showSection_def Let_def replaceState_hash_plain)

theorem showSection_replaces_hash_witness:
  "has_replaceState sample_page \<and> fragment_plain ''nope''
   \<and> getElementById (elems sample_page) ''nope'' = None
   \<and> location_hash (showSection ''nope'' None sample_page) = ''#nope''"
proof -
  have h: "has_replaceState sample_page" by code_simp
  have f: "fragment_plain ''nope''" by code_simp
  have g: "getElementById (elems sample_page) ''nope'' = None" by code_simp
  have r: "replaceState_hash ''nope'' = ''#nope''" by code_simp
  show ?thesis
    using h f g r showSection_replaces_hash [OF h, of "''nope''" None] by simp
qed

text \<open>
  Claim C1, as stated, fails: the claim has \<^verbatim>\<open>showSection\<close> with an unknown key leave the
  active section as it was. On the sample page \<^verbatim>\<open>intro\<close> is the visible section; after
  \<^verbatim>\<open>showSection('nope')\<close> no section is visible and the page has changed.
\<close>

theorem showSection_unknown_not_noop:
  "getElementById (elems sample_page) ''nope'' = None
   \<and> active_sections sample_page = [5]
   \<and> active_sections (showSection ''nope'' None sample_page) = []
   \<and> showSection ''nope'' None sample_page \<noteq> sample_page"
  by code_simp

text \<open>
  Claim C1, amended. For a key that no element carries, \<^verbatim>\<open>showSection\<close> returns without an
  error (it has no failing branch), does not scroll and leaves the scroll lock alone, but it
  hides every section: afterwards no section is marked visible, except an element that was
  itself passed as the navigation element.
\<close>

theorem showSection_unknown_hides_all:
  assumes "getElementById (elems s) K = None"
  shows "set (active_sections (showSection K element s)) \<subseteq> set_option element
       \<and> scrollY (showSection K element s) = scrollY s
       \<and> body_overflow (showSection K element s) = body_overflow s"
proof -
  have "set (active_sections (showSection K element s)) \<subseteq> set_option element"
    using assms
    by (auto simp: active_sections_def active_after_showSection kind_after_showSection)
  moreover have "scrollY (showSection K element s) = scrollY s"
  proof -
    have "getElementById (forEach (querySelectorAll_class (elems s) ''content-section'')
            (remove_class ''active'') (elems s)) K = None"
      using assms
      by (subst getElementById_cong [where es = "elems s"]) (simp_all add: nth_forEach)
    then show ?thesis by (simp add: showSection_def Let_def)
  qed
  moreover have "body_overflow (showSection K element s) = body_overflow s"
    by (simp add: showSection_def Let_def)
  ultimately show ?thesis by simp
qed

theorem showSection_unknown_hides_all_witness:
  "getElementById (elems sample_page) ''nope'' = None
   \<and> set (active_sections (showSection ''nope'' None sample_page)) \<subseteq> set_option None
   \<and> scrollY (showSection ''nope'' None sample_page) = scrollY sample_page
   \<and> body_overflow (showSection ''nope'' None sample_page) = body_overflow sample_page"
proof -
  have g: "getElementById (elems sample_page) ''nope'' = None" by code_simp
  show ?thesis
    using g showSection_unknown_hides_all [OF g, of None] by simp
qed

text \<open>
  Claim C7 at two failing inputs. The page is loaded with the fragment \<^verbatim>\<open>#toggleSidebar\<close>: no
  navigation item matches it and it names no section, yet the selector of line 154 finds
  the menu button, \<^verbatim>\<open>showSection\<close> is called, and the section that was visible is hidden.
  And on the page with the sections \<^verbatim>\<open>api-v2\<close> and \<^verbatim>\<open>api\<close>, loaded with \<^verbatim>\<open>#api\<close>, the selector
  finds the navigation item of \<^verbatim>\<open>api-v2\<close> first: the section \<^verbatim>\<open>api\<close> becomes visible and the
  navigation item of \<^verbatim>\<open>api-v2\<close> active, while the item of \<^verbatim>\<open>api\<close> is the element at 2.
\<close>

theorem handleInitialLoad_matches_by_substring:
  "active_sections menu_hash_page = [5]
   \<and> filter (\<lambda>e. has_class ''nav-item'' e
                 \<and> (case onclick e of None \<Rightarrow> False | Some a \<Rightarrow> sublist ''toggleSidebar'' a))
        (elems menu_hash_page) = []
   \<and> getElementById (elems menu_hash_page) ''toggleSidebar'' = None
   \<and> handleInitialLoad refusing_css menu_hash_page
       = Inr (showSection ''toggleSidebar'' (Some 4) menu_hash_page)
   \<and> active_sections (showSection ''toggleSidebar'' (Some 4) menu_hash_page) = []
   \<and> getElementById (elems versions_hash_page) ''api'' = Some 6
   \<and> nav_item_for ''api'' (elems versions_hash_page ! 2)
   \<and> nav_item_for ''api-v2'' (elems versions_hash_page ! 1)
   \<and> handleInitialLoad refusing_css versions_hash_page
       = Inr (showSection ''api'' (Some 1) versions_hash_page)
   \<and> active_sections (showSection ''api'' (Some 1) versions_hash_page) = [6]
   \<and> active_navItems (showSection ''api'' (Some 1) versions_hash_page) = [1]"
  by code_simp

section \<open>The sidebar and the scroll lock\<close>

text \<open>
  Claim C9. Whatever the state before, a resize to a width above 768 pixels leaves the sidebar
  closed and the inline \<^verbatim>\<open>overflow\<close> of \<^verbatim>\<open>body\<close> empty, that is, the scroll lock released.
\<close>

theorem resize_wide_closes_sidebar:
  assumes "768 < w"
  shows "\<not> sidebar_open (resize w s) \<and> body_overflow (resize w s) = []
       \<and> \<not> scroll_locked (resize w s)"
proof -
  have "\<not> sidebar_open (resize w s)"
  proof (cases "getElementById (elems s) ''sidebar''")
    case None
    then show ?thesis
      using assms
      by (intro sidebar_closed_without_sidebar) (simp add: resize_def handleResize_def)
  next
    case (Some sb)
    then show ?thesis
      using assms
      by (intro sidebar_closed_after_remove [of s sb]) (simp_all add: resize_def handleResize_def)
  qed
  moreover have "body_overflow (resize w s) = []"
    using assms by (simp add: resize_def handleResize_def)
  ultimately show ?thesis by (simp add: scroll_locked_def)
qed

theorem resize_wide_closes_sidebar_witness:
  "(768 :: int) < 1024 \<and> sidebar_open (toggleSidebar sample_page)
   \<and> scroll_locked (toggleSidebar sample_page)
   \<and> \<not> sidebar_open (resize 1024 (toggleSidebar sample_page))
   \<and> body_overflow (resize 1024 (toggleSidebar sample_page)) = []
   \<and> \<not> scroll_locked (resize 1024 (toggleSidebar sample_page))"
proof -
  have w: "(768 :: int) < 1024" by simp
  have o: "sidebar_open (toggleSidebar sample_page)" by code_simp
  have l: "scroll_locked (toggleSidebar sample_page)" by code_simp
  show ?thesis
    using w o l resize_wide_closes_sidebar [OF w, of "toggleSidebar sample_page"] by simp
qed

text \<open>
  Claim C2 at a failing input. On a narrow viewport (500 pixels) the sidebar is opened with
  \<^verbatim>\<open>toggleSidebar\<close>, which locks the scroll; \<^verbatim>\<open>showSection\<close> then closes the sidebar and leaves
  the lock in place: the sidebar is closed and the background still locked.
\<close>

theorem showSection_leaves_scroll_locked:
  "\<not> sidebar_open (sample_page\<lparr>innerWidth := 500\<rparr>)
   \<and> \<not> scroll_locked (sample_page\<lparr>innerWidth := 500\<rparr>)
   \<and> sidebar_open (toggleSidebar (sample_page\<lparr>innerWidth := 500\<rparr>))
   \<and> scroll_locked (toggleSidebar (sample_page\<lparr>innerWidth := 500\<rparr>))
   \<and> \<not> sidebar_open (showSection ''api'' (Some 2) (toggleSidebar (sample_page\<lparr>innerWidth := 500\<rparr>)))
   \<and> scroll_locked (showSection ''api'' (Some 2) (toggleSidebar (sample_page\<lparr>innerWidth := 500\<rparr>)))"
  by code_simp

section \<open>Copy feedback\<close>

text \<open>
  Claim C3 at a failing input. The copy button of the sample page is used twice, half a second
  apart. The second call takes its snapshot while the first feedback is shown; when both
  timeouts have run, the button shows the check mark and carries the classes \<^verbatim>\<open>copied\<close> and
  \<^verbatim>\<open>copying\<close>, not its original markup.
\<close>

theorem double_copy_leaks_feedback:
  "innerHTML (elems sample_page ! 10) = ''Copy''
   \<and> className (elems sample_page ! 10) = ''copy-btn''
   \<and> timers (copyCode verbatim_parser 10
               (elapse verbatim_parser 500 (copyCode verbatim_parser 10 sample_page)))
       = [(2000, RevertFeedback 10 ''Copy'' ''copy-btn''),
          (2500, RevertFeedback 10 check_icon ''copy-btn copied copying'')]
   \<and> timers (elapse verbatim_parser 2000 (copyCode verbatim_parser 10
               (elapse verbatim_parser 500 (copyCode verbatim_parser 10 sample_page)))) = []
   \<and> innerHTML (elems (elapse verbatim_parser 2000 (copyCode verbatim_parser 10
               (elapse verbatim_parser 500 (copyCode verbatim_parser 10 sample_page)))) ! 10)
       = check_icon
   \<and> className (elems (elapse verbatim_parser 2000 (copyCode verbatim_parser 10
               (elapse verbatim_parser 500 (copyCode verbatim_parser 10 sample_page)))) ! 10)
       = ''copy-btn copied copying''"
  by code_simp

text \<open>
  Claim C4 at a failing input. The last button of the sample page stands in no code container:
  \<^verbatim>\<open>closest\<close> finds nothing, the \<^verbatim>\<open>try\<close> block throws, and \<^verbatim>\<open>copyCode\<close> puts the button into
  the error feedback, with the warning icon and the red of \<^verbatim>\<open>#ff6b6b\<close> declared for the text
  and the four sides of the border. On a page without a menu button, a click outside the
  sidebar makes \<^verbatim>\<open>handleOutsideClick\<close> throw.
\<close>

theorem copyCode_without_container_shows_error:
  "closest_class (elems sample_page) ''code-container'' 11 = None
   \<and> copyCode_try verbatim_parser 11 sample_page = Inl (TypeError, sample_page)
   \<and> innerHTML (elems (copyCode verbatim_parser 11 sample_page) ! 11) = warning_icon
   \<and> style (elems (copyCode verbatim_parser 11 sample_page) ! 11)
       = [(''color'', ''rgb(255, 107, 107)''),
          (''border-top-color'', ''rgb(255, 107, 107)''),
          (''border-right-color'', ''rgb(255, 107, 107)''),
          (''border-bottom-color'', ''rgb(255, 107, 107)''),
          (''border-left-color'', ''rgb(255, 107, 107)'')]
   \<and> timers (copyCode verbatim_parser 11 sample_page)
       = [(2000, RevertError 11 ''Copy'' ''copy-btn'')]
   \<and> querySelector_class (elems no_toggle_page) ''menu-toggle'' = None
   \<and> handleOutsideClick 5 no_toggle_page = Inl (TypeError, no_toggle_page)"
  by code_simp




section \<open>The reading policy of the scroll spy\<close>

text \<open>
  Claim C5, as stated, fails. In a viewport 1000 pixels high, a section of height 100 at 400
  pixels from the top lies wholly inside the band from 10% to 80%, so by the claim it is the
  one being read; the callback does not mark it. A section with exactly half of its height
  inside the band the code uses is reported with the ratio 1/2 and is not marked either. And
  on the page with the sections \<^verbatim>\<open>api-v2\<close> and \<^verbatim>\<open>api\<close>, when \<^verbatim>\<open>api\<close> is read the selector of
  line 231 finds the navigation item of \<^verbatim>\<open>api-v2\<close> first and that item is activated, not the
  item of \<^verbatim>\<open>api\<close>, the element at 2.
\<close>

theorem spy_policy_differs:
  "spec_currently_read 1000 400 100
   \<and> \<not> spy_reads (observe_entry 1000 6 400 100)
   \<and> spy_entry refusing_css (initScrollSpy sample_page) (observe_entry 1000 6 400 100) sample_page
       = Inr sample_page
   \<and> intersectionRatio (observe_entry 1000 6 200 200) = 1 / 2
   \<and> isIntersecting (observe_entry 1000 6 200 200)
   \<and> spy_entry refusing_css (initScrollSpy sample_page) (observe_entry 1000 6 200 200) sample_page
       = Inr sample_page
   \<and> spy_reads (observe_entry 1000 6 200 150)
   \<and> ident (elems versions_page ! 6) = ''api''
   \<and> nav_item_for ''api'' (elems versions_page ! 2)
   \<and> nav_item_for ''api-v2'' (elems versions_page ! 1)
   \<and> (case spy_entry refusing_css (initScrollSpy versions_page) (observe_entry 1000 6 200 150)
              versions_page of
         Inl x \<Rightarrow> []
       | Inr s' \<Rightarrow> active_navItems s') = [1]"
  by code_simp

text \<open>
  Claim C5, amended. The callback reads a section of positive height exactly when more than
  half of its height lies between 20% and 30% of the viewport's height (the root margins of
  minus 20% at the top and minus 70% at the bottom), and an empty section exactly when it
  lies in that band or touches it. If the section is not read, or if no element's \<^verbatim>\<open>onclick\<close>
  attribute contains the section's id, nothing changes. If it is read and the element the
  selector of line 231 finds is that section's navigation item, that item becomes the one
  active navigation item, the fragment is replaced as \<^verbatim>\<open>replaceState\<close> does for the id when
  \<^verbatim>\<open>replaceState\<close> exists, and every element that is not a navigation item stays as it is: no
  section is shown or hidden. What happens when the selector finds another element first is
  left open here.
\<close>

theorem spy_entry_effect:
  assumes "rd = (0 \<le> H \<and>
                 (if 0 < h then h < 2 * (min (y + h) (3 * H / 10) - max y (H / 5))
                  else 0 \<le> min (y + h) (3 * H / 10) - max y (H / 5)))"
    and "sid = ident (elems s ! i)"
  shows "(\<not> rd \<or> querySelector_onclick css (elems s) sid = Inr None
            \<longrightarrow> spy_entry css (initScrollSpy s) (observe_entry H i y h) s = Inr s)
       \<and> (rd \<and> querySelector_onclick css (elems s) sid = Inr (Some n)
              \<and> n < length (elems s) \<and> nav_item_for sid (elems s ! n)
            \<longrightarrow> (\<exists>s'. spy_entry css (initScrollSpy s) (observe_entry H i y h) s = Inr s'
                  \<and> active_navItems s' = [n]
                  \<and> location_hash s'
                      = (if has_replaceState s then replaceState_hash sid else location_hash s)
                  \<and> length (elems s') = length (elems s)
                  \<and> (\<forall>j<length (elems s).
                        \<not> has_class ''nav-item'' (elems s ! j) \<longrightarrow> elems s' ! j = elems s ! j)))"
proof -
  have r: "spy_reads (observe_entry H i y h) = rd"
    using assms(1) by (simp only: spy_reads_observe)
  have a: "spy_entry css (initScrollSpy s) (observe_entry H i y h) s = Inr s"
    if "\<not> rd \<or> querySelector_onclick css (elems s) sid = Inr None"
    using that r assms(2) by (auto simp: spy_entry_def Let_def)
  have b: "\<exists>s'. spy_entry css (initScrollSpy s) (observe_entry H i y h) s = Inr s'
              \<and> active_navItems s' = [n]
              \<and> location_hash s'
                  = (if has_replaceState s then replaceState_hash sid else location_hash s)
              \<and> length (elems s') = length (elems s)
              \<and> (\<forall>j<length (elems s).
                    \<not> has_class ''nav-item'' (elems s ! j) \<longrightarrow> elems s' ! j = elems s ! j)"
    if m: "rd" and q: "querySelector_onclick css (elems s) sid = Inr (Some n)"
      and n: "n < length (elems s)" and nav: "nav_item_for sid (elems s ! n)"
  proof -
    define s' where "s' = s\<lparr>elems := upd n (add_class [''active''])
                (forEach (spy_navItems (initScrollSpy s)) (remove_class ''active'') (elems s)),
              location_hash := (if has_replaceState s then replaceState_hash sid
                                else location_hash s)\<rparr>"
    have item: "has_class ''nav-item'' (elems s ! n)"
      using nav by (simp add: nav_item_for_def)
    have "spy_entry css (initScrollSpy s) (observe_entry H i y h) s = Inr s'"
      using m q r assms(2) by (simp add: spy_entry_def Let_def s'_def)
    moreover have "location_hash s'
        = (if has_replaceState s then replaceState_hash sid else location_hash s)"
      by (simp add: s'_def)
    ultimately show ?thesis
      using spy_marks [OF n item s'_def] by blast
  qed
  show ?thesis using a b by blast
qed

theorem spy_entry_effect_witness:
  "True = ((0 :: rat) \<le> 1000 \<and>
           (if (0 :: rat) < 150
            then (150 :: rat) < 2 * (min (200 + 150) (3 * 1000 / 10) - max 200 (1000 / 5))
            else (0 :: rat) \<le> min (200 + 150) (3 * 1000 / 10) - max 200 (1000 / 5)))
   \<and> ''faq'' = ident (elems sample_page ! 7)
   \<and> querySelector_onclick refusing_css (elems sample_page) ''faq'' = Inr (Some 3)
   \<and> 3 < length (elems sample_page)
   \<and> nav_item_for ''faq'' (elems sample_page ! 3)
   \<and> active_navItems sample_page = [1]
   \<and> (\<exists>s'. spy_entry refusing_css (initScrollSpy sample_page) (observe_entry 1000 7 200 150)
               sample_page = Inr s'
         \<and> active_navItems s' = [3] \<and> location_hash s' = ''#faq''
         \<and> elems s' ! 5 = elems sample_page ! 5)
   \<and> False = ((0 :: rat) \<le> 1000 \<and>
           (if (0 :: rat) < 100
            then (100 :: rat) < 2 * (min (400 + 100) (3 * 1000 / 10) - max 400 (1000 / 5))
            else (0 :: rat) \<le> min (400 + 100) (3 * 1000 / 10) - max 400 (1000 / 5)))
   \<and> spy_entry refusing_css (initScrollSpy sample_page) (observe_entry 1000 7 400 100) sample_page
       = Inr sample_page"
proof -
  have 3: "True = ((0 :: rat) \<le> 1000 \<and>
           (if (0 :: rat) < 150
            then (150 :: rat) < 2 * (min (200 + 150) (3 * 1000 / 10) - max 200 (1000 / 5))
            else (0 :: rat) \<le> min (200 + 150) (3 * 1000 / 10) - max 200 (1000 / 5)))"
    by simp
  have 4: "''faq'' = ident (elems sample_page ! 7)" by code_simp
  have 5: "querySelector_onclick refusing_css (elems sample_page) ''faq'' = Inr (Some 3)"
    by code_simp
  have 6: "nav_item_for ''faq'' (elems sample_page ! 3)" by code_simp
  have 7: "active_navItems sample_page = [1]" by code_simp
  have 8: "has_replaceState sample_page" by code_simp
  have 9: "\<not> has_class ''nav-item'' (elems sample_page ! 5)" by code_simp
  have 10: "5 < length (elems sample_page)" "3 < length (elems sample_page)" by code_simp+
  have 11: "replaceState_hash ''faq'' = ''#faq''" by code_simp
  have 12: "False = ((0 :: rat) \<le> 1000 \<and>
           (if (0 :: rat) < 100
            then (100 :: rat) < 2 * (min (400 + 100) (3 * 1000 / 10) - max 400 (1000 / 5))
            else (0 :: rat) \<le> min (400 + 100) (3 * 1000 / 10) - max 400 (1000 / 5)))"
    by simp
  have a: "\<exists>s'. spy_entry refusing_css (initScrollSpy sample_page) (observe_entry 1000 7 200 150)
               sample_page = Inr s'
         \<and> active_navItems s' = [3] \<and> location_hash s' = ''#faq''
         \<and> elems s' ! 5 = elems sample_page ! 5"
    using spy_entry_effect [OF 3 4, of refusing_css 3] 5 6 8 9 10 11 by auto
  have b: "spy_entry refusing_css (initScrollSpy sample_page) (observe_entry 1000 7 400 100)
             sample_page = Inr sample_page"
    using spy_entry_effect [OF 12 4, of refusing_css 3] by simp
  show ?thesis
    using 3 4 5 6 7 10 12 a b by simp
qed

end
